theory Spec2Isabelle
  imports Complex_Main
begin

section \<open>Python values, rows and strings\<close>

text \<open>
  The pipeline lives in \<^verbatim>\<open>backend/services/gemini_service.py\<close> (class
  \<^verbatim>\<open>GeminiService\<close>), \<^verbatim>\<open>backend/services/rag_service.py\<close> (class
  \<^verbatim>\<open>RAGService\<close>, whose \<^verbatim>\<open>build_index\<close> and \<^verbatim>\<open>search\<close> are the same statements as
  \<^verbatim>\<open>_build_rag_index\<close> and \<^verbatim>\<open>_search_rag_index\<close> up to the field names),
  \<^verbatim>\<open>backend/database.py\<close> and \<^verbatim>\<open>backend/main.py\<close>.

  An exception is a value \<open>Error msg\<close>, where \<open>msg\<close> is what \<^verbatim>\<open>str(e)\<close> gives. Only
  \<^verbatim>\<open>Exception\<close> and its subclasses are modelled (the handlers of the source catch
  \<^verbatim>\<open>Exception\<close>). A Python \<^verbatim>\<open>str\<close> is the list of its code points (\<open>pystr\<close>, what
  \<^verbatim>\<open>ord\<close> gives for each character); \<open>ascii\<close> turns a literal of the source into its
  code points. SQL statements and the keys of a row stay literals. Logging is not
  modelled.
\<close>

type_synonym pystr = "int list"

definition ascii :: "string \<Rightarrow> pystr" where
  "ascii s = map of_char s"

datatype error = Error pystr

datatype pyval = PyNone | PyInt int | PyStr pystr

text \<open>A row of the store: the \<^verbatim>\<open>dict\<close> that \<^verbatim>\<open>dict(zip(columns, row))\<close> builds.\<close>

type_synonym row = "(string \<times> pyval) list"

definition dict_get :: "row \<Rightarrow> string \<Rightarrow> pyval" where
  "dict_get d k = (case map_of d k of None \<Rightarrow> PyNone | Some v \<Rightarrow> v)"

text \<open>\<^verbatim>\<open>d[k]\<close>: a missing key raises \<^verbatim>\<open>KeyError\<close>, whose text is the key in quotes.\<close>

definition dict_item :: "row \<Rightarrow> string \<Rightarrow> error + pyval" where
  "dict_item d k =
     (case map_of d k of
        None \<Rightarrow> Inl (Error ([39] @ ascii k @ [39]))
      | Some v \<Rightarrow> Inr v)"

fun truthy :: "pyval \<Rightarrow> bool" where
  "truthy PyNone = False"
| "truthy (PyInt n) = (n \<noteq> 0)"
| "truthy (PyStr s) = (s \<noteq> [])"

definition digit_char :: "nat \<Rightarrow> int" where
  "digit_char n = 48 + int n"

fun digits :: "nat \<Rightarrow> pystr" where
  "digits n = (if n < 10 then [digit_char n] else digits (n div 10) @ [digit_char (n mod 10)])"

declare digits.simps [simp del]

definition str_int :: "int \<Rightarrow> pystr" where
  "str_int i = (if i < 0 then 45 # digits (nat (- i)) else digits (nat i))"

fun py_str :: "pyval \<Rightarrow> pystr" where
  "py_str PyNone = ascii ''None''"
| "py_str (PyInt n) = str_int n"
| "py_str (PyStr s) = s"

text \<open>Python list indexing \<^verbatim>\<open>xs[i]\<close>: a negative index counts from the end, an index out
  of range raises \<^verbatim>\<open>IndexError\<close>.\<close>

definition py_index :: "'a list \<Rightarrow> int \<Rightarrow> error + 'a" where
  "py_index xs i =
     (if 0 \<le> i \<and> i < int (length xs) then Inr (xs ! nat i)
      else if i < 0 \<and> - int (length xs) \<le> i then Inr (xs ! nat (int (length xs) + i))
      else Inl (Error (ascii ''list index out of range'')))"

section \<open>The collaborators\<close>

text \<open>
  What the pipeline consumes and does not define: the database cursor
  (\<^verbatim>\<open>cursor.execute\<close>, \<^verbatim>\<open>cursor.description\<close>, \<^verbatim>\<open>cursor.fetchall\<close>, with a
  \<^verbatim>\<open>None\<close> or empty parameter list as \<open>[]\<close>), the sentence embedding model
  (\<^verbatim>\<open>encode\<close>: a batch of texts to a batch of vectors), the generative model
  (\<^verbatim>\<open>start_chat(history=...)\<close> and \<^verbatim>\<open>send_message(prompt, stream=True)\<close>: the history
  and the prompt to the texts of the chunks the stream delivers, then the exception that
  ends the stream, if any; an exception raised by the call itself is a stream that
  delivers nothing before it) and \<^verbatim>\<open>str\<close> on a \<^verbatim>\<open>dict\<close>. Each may raise. Vector
  components and distances are real numbers: rounding, infinities and NaN of
  \<^verbatim>\<open>float32\<close> are not modelled.

  The case mappings of Python's Unicode database are parameters as well, for the code
  points outside ASCII: \<open>to_lower_full\<close> and \<open>to_upper_full\<close> give the full
  lower-case and upper-case mapping of a code point, and \<open>final_sigma\<close> tells whether
  a capital sigma at a position of a text is in final position.
\<close>

type_synonym vec = "real list"

record env =
  cursor_fetch :: "string \<Rightarrow> pyval list \<Rightarrow> error + row list"
  encode :: "pystr list \<Rightarrow> error + vec list"
  send_message :: "pystr list \<Rightarrow> pystr \<Rightarrow> pystr list \<times> error option"
  dict_str :: "row \<Rightarrow> pystr"
  to_lower_full :: "int \<Rightarrow> pystr"
  to_upper_full :: "int \<Rightarrow> pystr"
  final_sigma :: "pystr \<Rightarrow> nat \<Rightarrow> bool"

text \<open>\<^verbatim>\<open>Database.execute_query\<close>: the handler logs and re-raises.\<close>

definition execute_query :: "env \<Rightarrow> string \<Rightarrow> pyval list \<Rightarrow> error + row list" where
  "execute_query env query params =
     (case cursor_fetch env query params of
        Inl e \<Rightarrow> Inl e
      | Inr results \<Rightarrow> Inr results)"

section \<open>Case mapping and substrings\<close>

text \<open>
  \<^verbatim>\<open>str.lower()\<close> maps the text position by position: an ASCII capital to its small
  letter, any other ASCII code point to itself, a capital sigma (U+03A3) to the final or
  the medial small sigma by its context, and every other code point by the database.
  Two code points outside ASCII have a lower case with an ASCII letter in it, and are
  written out: the Kelvin sign (U+212A) gives \<^verbatim>\<open>k\<close>, and the capital I with dot above
  (U+0130) gives \<^verbatim>\<open>i\<close> followed by the combining dot above (U+0307).
  \<^verbatim>\<open>str.upper()\<close> maps code point by code point.
\<close>

definition lower_at :: "env \<Rightarrow> pystr \<Rightarrow> nat \<Rightarrow> pystr" where
  "lower_at env s i =
     (let c = s ! i
      in if 65 \<le> c \<and> c \<le> 90 then [c + 32]
         else if c < 128 then [c]
         else if c = 0x3A3 then [if final_sigma env s i then 0x3C2 else 0x3C3]
         else if c = 0x212A then [0x6B]
         else if c = 0x130 then [0x69, 0x307]
         else to_lower_full env c)"

definition lower :: "env \<Rightarrow> pystr \<Rightarrow> pystr" where
  "lower env s = concat (map (lower_at env s) [0..<length s])"

definition upper_ascii :: "int \<Rightarrow> int" where
  "upper_ascii c = (if 97 \<le> c \<and> c \<le> 122 then c - 32 else c)"

definition upper_char :: "env \<Rightarrow> int \<Rightarrow> pystr" where
  "upper_char env c = (if c < 128 then [upper_ascii c] else to_upper_full env c)"

definition upper :: "env \<Rightarrow> pystr \<Rightarrow> pystr" where
  "upper env s = concat (map (upper_char env) s)"

text \<open>\<^verbatim>\<open>kw in s\<close> on strings: \<open>kw\<close> occurs in \<open>s\<close> as a contiguous substring.\<close>

fun contains :: "pystr \<Rightarrow> pystr \<Rightarrow> bool" where
  "contains kw [] = (kw = [])"
| "contains kw (c # cs) = (take (length kw) (c # cs) = kw \<or> contains kw cs)"

section \<open>Intent detection\<close>

text \<open>
  \<^verbatim>\<open>re.search(r'clm-[a-z0-9-]+', user_message_lower)\<close>: the class \<^verbatim>\<open>[a-z0-9-]\<close>, a match
  anchored at the head of the text (the literal \<^verbatim>\<open>clm-\<close>, then the longest non-empty run of
  class characters, the quantifier being greedy and last in the pattern), and the search
  for the leftmost position that matches. \<open>re_search\<close> returns \<^verbatim>\<open>group(0)\<close>.
\<close>

definition id_char :: "int \<Rightarrow> bool" where
  "id_char c = (97 \<le> c \<and> c \<le> 122 \<or> 48 \<le> c \<and> c \<le> 57 \<or> c = 45)"

definition match_at :: "pystr \<Rightarrow> pystr option" where
  "match_at s =
     (let body = takeWhile id_char (drop 4 s)
      in if take 4 s = ascii ''clm-'' \<and> body \<noteq> []
         then Some (ascii ''clm-'' @ body) else None)"

fun re_search :: "pystr \<Rightarrow> pystr option" where
  "re_search [] = None"
| "re_search (c # cs) = (case match_at (c # cs) of Some m \<Rightarrow> Some m | None \<Rightarrow> re_search cs)"

definition count_keywords :: "pystr list" where
  "count_keywords = [ascii ''how many'', ascii ''count'', ascii ''total number'']"

text \<open>The three branches of \<^verbatim>\<open>stream_response\<close> (\<^verbatim>\<open>if claim_id_match\<close> /
  \<^verbatim>\<open>elif any(keyword in ...)\<close> / \<^verbatim>\<open>else\<close>), as the variant they select.\<close>

datatype intent = IdLookup pystr | CountQuery | SemanticSearch pystr

definition classify :: "env \<Rightarrow> pystr \<Rightarrow> intent" where
  "classify env user_message =
     (let user_message_lower = lower env user_message
      in case re_search user_message_lower of
           Some claim_id_match \<Rightarrow> IdLookup (upper env claim_id_match)
         | None \<Rightarrow>
             if list_ex (\<lambda>keyword. contains keyword user_message_lower) count_keywords
             then CountQuery
             else SemanticSearch user_message)"

section \<open>The exhaustive Euclidean index\<close>

text \<open>
  \<^verbatim>\<open>faiss.IndexFlatL2\<close> as the library documents it: the index stores the vectors it is
  given, in order; \<^verbatim>\<open>add\<close> and \<^verbatim>\<open>search\<close> assert the dimension of their argument, and
  \<^verbatim>\<open>search\<close> asserts \<open>k > 0\<close>; for each query \<^verbatim>\<open>search\<close> returns \<open>k\<close> squared Euclidean
  distances in ascending order with the positions of the vectors (ties in insertion
  order), and fills the places for which the index has no vector with the label \<open>-1\<close> and
  the largest \<^verbatim>\<open>float32\<close>. The text of a failed assertion is empty.
\<close>

record index_flat_l2 =
  idx_d :: nat
  idx_xb :: "vec list"

definition IndexFlatL2 :: "nat \<Rightarrow> index_flat_l2" where
  "IndexFlatL2 dimension = \<lparr>idx_d = dimension, idx_xb = []\<rparr>"

definition ntotal :: "index_flat_l2 \<Rightarrow> nat" where
  "ntotal ix = length (idx_xb ix)"

definition index_add :: "index_flat_l2 \<Rightarrow> vec list \<Rightarrow> error + index_flat_l2" where
  "index_add ix xs =
     (if list_all (\<lambda>x. length x = idx_d ix) xs
      then Inr (ix\<lparr>idx_xb := idx_xb ix @ xs\<rparr>)
      else Inl (Error []))"

definition l2_sqr :: "vec \<Rightarrow> vec \<Rightarrow> real" where
  "l2_sqr x y = sum_list (map (\<lambda>(a, b). (a - b) * (a - b)) (zip x y))"

definition FLT_MAX :: real where
  "FLT_MAX = 340282346638528859811704183484516925440"

definition knn :: "vec list \<Rightarrow> vec \<Rightarrow> nat \<Rightarrow> (real \<times> int) list" where
  "knn xb q k =
     (let scored = zip (map (l2_sqr q) xb) (map int [0..<length xb]);
          best = take k (sort_key fst scored)
      in best @ replicate (k - length best) (FLT_MAX, - 1))"

definition index_search ::
  "index_flat_l2 \<Rightarrow> vec list \<Rightarrow> int \<Rightarrow> error + (real list list \<times> int list list)" where
  "index_search ix xq k =
     (if 0 < k \<and> list_all (\<lambda>q. length q = idx_d ix) xq
      then Inr (map (\<lambda>q. map fst (knn (idx_xb ix) q (nat k))) xq,
                map (\<lambda>q. map snd (knn (idx_xb ix) q (nat k))) xq)
      else Inl (Error []))"

text \<open>\<^verbatim>\<open>embeddings.shape[1]\<close>: the row length of a two-dimensional array. An array with
  no row, or with rows of different lengths, has no second axis.\<close>

definition shape1 :: "vec list \<Rightarrow> error + nat" where
  "shape1 embeddings =
     (case embeddings of
        [] \<Rightarrow> Inl (Error (ascii ''tuple index out of range''))
      | e # es \<Rightarrow>
          if list_all (\<lambda>x. length x = length e) es then Inr (length e)
          else Inl (Error (ascii ''tuple index out of range'')))"

section \<open>The service state, the index build and the search\<close>

record rag_state =
  rag_index :: "index_flat_l2 option"
  rag_document_metadata :: "row list"
  rag_document_texts :: "pystr list"
  distance_threshold :: real

definition newline :: pystr where
  "newline = [10]"

definition text_representation :: "row \<Rightarrow> pystr" where
  "text_representation claim =
     ascii ''Claim ID: '' @ py_str (dict_get claim ''claim_id'') @ newline
     @ ascii ''Claim Type: '' @ py_str (dict_get claim ''claim_type'') @ newline
     @ ascii ''Status: '' @ py_str (dict_get claim ''claim_status'') @ newline
     @ ascii ''Diagnosis Code: '' @ py_str (dict_get claim ''diagnosis_code'')"

text \<open>The \<^verbatim>\<open>for claim in claims\<close> loop, appending to the two lists.\<close>

fun index_documents :: "row list \<Rightarrow> row list \<times> pystr list \<Rightarrow> row list \<times> pystr list" where
  "index_documents [] acc = acc"
| "index_documents (claim # claims) (metadata, texts) =
     (if \<not> truthy (dict_get claim ''claim_id'')
      then index_documents claims (metadata, texts)
      else index_documents claims (metadata @ [claim], texts @ [text_representation claim]))"

definition build_query :: string where
  "build_query =
     ''SELECT claim_id, claim_type, claim_status, diagnosis_code FROM claims LIMIT 5000''"

text \<open>
  The body of the \<^verbatim>\<open>try\<close> of \<^verbatim>\<open>_build_rag_index\<close> / \<^verbatim>\<open>build_index\<close>: the exception that
  leaves it, if any, with the state as mutated up to there. The two lists are cleared and
  refilled in place before the embedding is computed, and the new index is assigned
  before the vectors are added to it.
\<close>

definition build_body :: "env \<Rightarrow> rag_state \<Rightarrow> error option \<times> rag_state" where
  "build_body env s =
     (case execute_query env build_query [] of
        Inl e \<Rightarrow> (Some e, s)
      | Inr claims \<Rightarrow>
          if claims = [] then (None, s)
          else
            (case index_documents claims ([], []) of
               (metadata, texts) \<Rightarrow>
                 let s1 = s\<lparr>rag_document_metadata := metadata, rag_document_texts := texts\<rparr>
                 in if texts = [] then (None, s1)
                    else
                      (case encode env texts of
                         Inl e \<Rightarrow> (Some e, s1)
                       | Inr embeddings \<Rightarrow>
                           (case shape1 embeddings of
                              Inl e \<Rightarrow> (Some e, s1)
                            | Inr dimension \<Rightarrow>
                                let s2 = s1\<lparr>rag_index := Some (IndexFlatL2 dimension)\<rparr>
                                in (case index_add (IndexFlatL2 dimension) embeddings of
                                      Inl e \<Rightarrow> (Some e, s2)
                                    | Inr ix \<Rightarrow> (None, s2\<lparr>rag_index := Some ix\<rparr>))))))"

text \<open>\<^verbatim>\<open>_build_rag_index\<close> / \<^verbatim>\<open>build_index\<close>: the handler sets the index to \<^verbatim>\<open>None\<close> and
  returns. \<open>Inl\<close> would be an exception reaching the caller.\<close>

definition build_rag_index :: "env \<Rightarrow> rag_state \<Rightarrow> error + rag_state" where
  "build_rag_index env s =
     (case build_body env s of
        (Some e, s') \<Rightarrow> Inr (s'\<lparr>rag_index := None\<rparr>)
      | (None, s') \<Rightarrow> Inr s')"

record search_response =
  results :: "row list"
  fallback_needed :: bool

definition fallback :: search_response where
  "fallback = \<lparr>results = [], fallback_needed = True\<rparr>"

text \<open>The comprehension \<^verbatim>\<open>[self.rag_document_metadata[i] for i in indices[0]]\<close>.\<close>

fun lookup_all :: "row list \<Rightarrow> int list \<Rightarrow> error + row list" where
  "lookup_all metadata [] = Inr []"
| "lookup_all metadata (i # is) =
     (case py_index metadata i of
        Inl e \<Rightarrow> Inl e
      | Inr doc \<Rightarrow>
          (case lookup_all metadata is of
             Inl e \<Rightarrow> Inl e
           | Inr docs \<Rightarrow> Inr (doc # docs)))"

text \<open>The body of the \<^verbatim>\<open>try\<close> of \<^verbatim>\<open>_search_rag_index\<close> / \<^verbatim>\<open>search\<close>. The warning of
  the fallback branch evaluates \<^verbatim>\<open>distances[0]\<close> before the branch returns.\<close>

definition search_body ::
  "env \<Rightarrow> rag_state \<Rightarrow> index_flat_l2 \<Rightarrow> pystr \<Rightarrow> int \<Rightarrow> error + search_response" where
  "search_body env s ix query k =
     (case encode env [query] of
        Inl e \<Rightarrow> Inl e
      | Inr query_embedding \<Rightarrow>
          (case index_search ix query_embedding k of
             Inl e \<Rightarrow> Inl e
           | Inr (distances, indices) \<Rightarrow>
               (case py_index indices 0 of
                  Inl e \<Rightarrow> Inl e
                | Inr indices0 \<Rightarrow>
                    (case py_index distances 0 of
                       Inl e \<Rightarrow> Inl e
                     | Inr distances0 \<Rightarrow>
                         if length indices0 = 0 then Inr fallback
                         else
                           (case py_index distances0 0 of
                              Inl e \<Rightarrow> Inl e
                            | Inr d00 \<Rightarrow>
                                if d00 > distance_threshold s then Inr fallback
                                else
                                  (case lookup_all (rag_document_metadata s) indices0 of
                                     Inl e \<Rightarrow> Inl e
                                   | Inr docs \<Rightarrow>
                                       Inr \<lparr>results = docs, fallback_needed = False\<rparr>))))))"

text \<open>\<^verbatim>\<open>_search_rag_index\<close> / \<^verbatim>\<open>search\<close>: the response and the state of the service after
  the call.\<close>

definition search_rag_index ::
  "env \<Rightarrow> rag_state \<Rightarrow> pystr \<Rightarrow> int \<Rightarrow> search_response \<times> rag_state" where
  "search_rag_index env s query k =
     (case rag_index s of
        None \<Rightarrow> (fallback, s)
      | Some ix \<Rightarrow>
          if rag_document_metadata s = [] then (fallback, s)
          else
            (case search_body env s ix query k of
               Inl e \<Rightarrow> (fallback, s)
             | Inr response \<Rightarrow> (response, s)))"

section \<open>The response stream\<close>

definition lookup_query :: string where
  "lookup_query = ''SELECT * FROM claims WHERE claim_id = %s''"

definition count_query :: string where
  "count_query = ''SELECT COUNT(*) as total FROM claims''"

definition found_context :: "env \<Rightarrow> pystr \<Rightarrow> row \<Rightarrow> pystr" where
  "found_context env claim_id r =
     ascii ''Here is the data found for claim ID '' @ claim_id @ ascii '':'' @ newline
     @ dict_str env r"

definition not_found_context :: "pystr \<Rightarrow> pystr" where
  "not_found_context claim_id =
     ascii ''I could not find any data for the claim ID '' @ claim_id @ ascii ''.''"

definition count_context :: "pyval \<Rightarrow> pystr" where
  "count_context total_claims =
     ascii ''The total number of claims in the database is '' @ py_str total_claims
     @ ascii ''.''"

definition semantic_context :: "env \<Rightarrow> row list \<Rightarrow> pystr" where
  "semantic_context env docs =
     ascii ''Based on the following relevant claims data:'' @ newline
     @ concat (map (\<lambda>doc. ascii ''- '' @ dict_str env doc @ newline) docs)"

definition no_match_context :: pystr where
  "no_match_context =
     ascii ''No specific claims data was found in the database that matches your query.''"

text \<open>The intent branches of \<^verbatim>\<open>stream_response\<close>, from \<^verbatim>\<open>context = ""\<close> to the end of the
  \<^verbatim>\<open>else\<close>: the context, or the exception that leaves them.\<close>

definition build_context :: "env \<Rightarrow> rag_state \<Rightarrow> pystr \<Rightarrow> error + pystr" where
  "build_context env s user_message =
     (case classify env user_message of
        IdLookup claim_id \<Rightarrow>
          (case execute_query env lookup_query [PyStr claim_id] of
             Inl e \<Rightarrow> Inl e
           | Inr result \<Rightarrow>
               (case result of
                  r0 # _ \<Rightarrow> Inr (found_context env claim_id r0)
                | [] \<Rightarrow> Inr (not_found_context claim_id)))
      | CountQuery \<Rightarrow>
          (case execute_query env count_query [] of
             Inl e \<Rightarrow> Inl e
           | Inr result \<Rightarrow>
               (case result of
                  r0 # _ \<Rightarrow>
                    (case dict_item r0 ''total'' of
                       Inl e \<Rightarrow> Inl e
                     | Inr total_claims \<Rightarrow> Inr (count_context total_claims))
                | [] \<Rightarrow> Inr (count_context (PyInt 0))))
      | SemanticSearch text \<Rightarrow>
          (case search_rag_index env s text 3 of
             (search_response, _) \<Rightarrow>
               if \<not> fallback_needed search_response
               then Inr (semantic_context env (results search_response))
               else Inr no_match_context))"

definition indent :: pystr where
  "indent = replicate 12 32"

definition prompt_of :: "pystr \<Rightarrow> pystr \<Rightarrow> pystr" where
  "prompt_of context user_message =
     ascii ''You are a helpful assistant for analyzing insurance claims.'' @ newline
     @ indent @ newline
     @ indent @ ascii ''Context:'' @ newline
     @ indent @ context @ newline
     @ indent @ newline
     @ indent
     @ ascii ''Based ONLY on the context provided, please answer the user's question.''
     @ newline
     @ indent @ ascii ''User: '' @ user_message @ newline
     @ indent"

text \<open>The warning sign and its variation selector (U+26A0, U+FE0F).\<close>

definition warning_sign :: pystr where
  "warning_sign = [0x26A0, 0xFE0F]"

definition error_marker :: pystr where
  "error_marker = warning_sign @ ascii '' Error processing your request: ''"

definition error_fragment :: "error \<Rightarrow> pystr" where
  "error_fragment e = (case e of Error msg \<Rightarrow> error_marker @ msg)"

text \<open>
  A generator's run: the fragments it yields, in order, and the exception that ends it,
  if any. \<open>ensure_built\<close> is the lazy build that opens \<^verbatim>\<open>stream_response\<close>
  (\<^verbatim>\<open>if self.rag_index is None: await self._build_rag_index()\<close>), and \<open>stream_body\<close>
  is the body of its \<^verbatim>\<open>try\<close>: the lazy build, the intent branches, the prompt, a chat started with \<^verbatim>\<open>history=[]\<close>, and one
  fragment for each chunk whose text is not empty. The parameter \<open>conversation_id\<close> is
  the method's.
\<close>

type_synonym 'a run = "'a list \<times> error option"

definition ensure_built :: "env \<Rightarrow> rag_state \<Rightarrow> error + rag_state" where
  "ensure_built env s = (if rag_index s = None then build_rag_index env s else Inr s)"

definition stream_body ::
  "env \<Rightarrow> rag_state \<Rightarrow> pystr \<Rightarrow> pystr option \<Rightarrow> pystr run \<times> rag_state" where
  "stream_body env s user_message conversation_id =
     (case ensure_built env s of
        Inl e \<Rightarrow> (([], Some e), s)
      | Inr s1 \<Rightarrow>
          (case build_context env s1 user_message of
             Inl e \<Rightarrow> (([], Some e), s1)
           | Inr context \<Rightarrow>
               (case send_message env [] (prompt_of context user_message) of
                  (chunks, raised) \<Rightarrow> ((filter (\<lambda>text. text \<noteq> []) chunks, raised), s1))))"

text \<open>\<^verbatim>\<open>stream_response\<close>: the handler yields one fragment and the generator returns.\<close>

definition stream_response ::
  "env \<Rightarrow> rag_state \<Rightarrow> pystr \<Rightarrow> pystr option \<Rightarrow> pystr run \<times> rag_state" where
  "stream_response env s user_message conversation_id =
     (case stream_body env s user_message conversation_id of
        ((yielded, Some e), s') \<Rightarrow> ((yielded @ [error_fragment e], None), s')
      | ((yielded, None), s') \<Rightarrow> ((yielded, None), s'))"

text \<open>\<^verbatim>\<open>generate_response\<close> of \<^verbatim>\<open>chat_with_ai\<close>: one server-sent event for each fragment,
  then the \<^verbatim>\<open>done\<close> event. The JSON text of an event is not modelled. The generator has no
  handler: an exception of \<^verbatim>\<open>stream_response\<close> would end it before the \<^verbatim>\<open>done\<close> event.\<close>

datatype sse_event = ChunkEvent pystr | DoneEvent

definition generate_response ::
  "env \<Rightarrow> rag_state \<Rightarrow> pystr \<Rightarrow> pystr option \<Rightarrow> sse_event run \<times> rag_state" where
  "generate_response env s message conversation_id =
     (case stream_response env s message conversation_id of
        ((chunks, Some e), s') \<Rightarrow> ((map ChunkEvent chunks, Some e), s')
      | ((chunks, None), s') \<Rightarrow> ((map ChunkEvent chunks @ [DoneEvent], None), s'))"

section \<open>Notions of the specification\<close>


text \<open>No snapshot exists: the condition under which the search returns at once.\<close>

definition snapshot_unset :: "rag_state \<Rightarrow> bool" where
  "snapshot_unset s = (rag_index s = None \<or> rag_document_metadata s = [])"

text \<open>A built snapshot: an index, and documents aligned with its vectors.\<close>

definition snapshot_built :: "rag_state \<Rightarrow> index_flat_l2 \<Rightarrow> bool" where
  "snapshot_built s ix =
     (rag_index s = Some ix \<and> rag_document_metadata s \<noteq> []
      \<and> ntotal ix = length (rag_document_metadata s))"

text \<open>A record with an identifier: the rows the build loop keeps
  (\<^verbatim>\<open>if not claim.get('claim_id'): continue\<close>).\<close>

definition has_id :: "row \<Rightarrow> bool" where
  "has_id claim = truthy (dict_get claim ''claim_id'')"

text \<open>The result set of a search: the distances and labels the index returns for the
  embedded query, in rank order; empty when the embedding or the index call raises or
  returns no row.\<close>

definition result_set :: "env \<Rightarrow> index_flat_l2 \<Rightarrow> pystr \<Rightarrow> int \<Rightarrow> (real \<times> int) list" where
  "result_set env ix query k =
     (case encode env [query] of
        Inl e \<Rightarrow> []
      | Inr query_embedding \<Rightarrow>
          (case index_search ix query_embedding k of
             Inl e \<Rightarrow> []
           | Inr (distances, indices) \<Rightarrow>
               (case (distances, indices) of
                  (distances0 # _, indices0 # _) \<Rightarrow> zip distances0 indices0
                | _ \<Rightarrow> [])))"

section \<open>A small store and its collaborators\<close>

text \<open>Two rows of the \<^verbatim>\<open>MockDB\<close> of \<^verbatim>\<open>rag_service.py\<close>, an embedding that maps a text to
  the last digit of its length, a generative model that streams three chunks, case
  mappings that leave the other code points alone, the state of a service that has not
  built its index, and the state after it has built it over the two rows.\<close>

definition mock_rows :: "row list" where
  "mock_rows =
     [[(''claim_id'', PyInt 101), (''claim_type'', PyStr (ascii ''Medical'')),
       (''claim_status'', PyStr (ascii ''Approved'')),
       (''diagnosis_code'', PyStr (ascii ''J45.909''))],
      [(''claim_id'', PyInt 102), (''claim_type'', PyStr (ascii ''Dental'')),
       (''claim_status'', PyStr (ascii ''Pending'')),
       (''diagnosis_code'', PyStr (ascii ''K02.51''))]]"

definition demo_env :: env where
  "demo_env =
     \<lparr>cursor_fetch = (\<lambda>query params.
          if query = build_query then Inr mock_rows
          else if query = count_query then Inr [[(''total'', PyInt 42)]]
          else Inr []),
      encode = (\<lambda>texts. Inr (map (\<lambda>t. [real (length t mod 10)]) texts)),
      send_message = (\<lambda>history prompt. ([ascii ''Two '', [], ascii ''claims.''], None)),
      dict_str = (\<lambda>r. py_str (dict_get r ''claim_id'')),
      to_lower_full = (\<lambda>c. [c]),
      to_upper_full = (\<lambda>c. [c]),
      final_sigma = (\<lambda>s i. False)\<rparr>"

definition demo_state :: rag_state where
  "demo_state =
     \<lparr>rag_index = Some \<lparr>idx_d = 1, idx_xb = [[4], [1]]\<rparr>,
      rag_document_metadata = mock_rows,
      rag_document_texts = map text_representation mock_rows,
      distance_threshold = 1\<rparr>"

definition empty_state :: rag_state where
  "empty_state =
     \<lparr>rag_index = None, rag_document_metadata = [], rag_document_texts = [],
      distance_threshold = 1\<rparr>"

text \<open>A store whose rows carry no identifier, a store without rows, and an embedding
  model that raises.\<close>

definition noid_env :: env where
  "noid_env =
     demo_env\<lparr>cursor_fetch :=
       (\<lambda>query params. Inr [[(''claim_type'', PyStr (ascii ''Dental''))]])\<rparr>"


definition broken_env :: env where
  "broken_env = demo_env\<lparr>encode := (\<lambda>texts. Inl (Error (ascii ''model not loaded'')))\<rparr>"

text \<open>A store that is down, a generative model that fails after its first chunk, and
  one that fails at the call.\<close>

definition down_env :: env where
  "down_env =
     demo_env\<lparr>cursor_fetch := (\<lambda>query params. Inl (Error (ascii ''connection lost'')))\<rparr>"

definition quota_env :: env where
  "quota_env =
     demo_env\<lparr>send_message :=
       (\<lambda>history prompt. ([ascii ''Two ''], Some (Error (ascii ''quota exceeded''))))\<rparr>"

definition refusing_env :: env where
  "refusing_env =
     demo_env\<lparr>send_message :=
       (\<lambda>history prompt. ([], Some (Error (ascii ''quota exceeded''))))\<rparr>"

section \<open>Intent detection: the identifier rule\<close>




















section \<open>The search\<close>

lemma knn_split:
  "knn xb q k =
     take k (sort_key fst (zip (map (l2_sqr q) xb) (map int [0..<length xb])))
     @ replicate (k - min k (length xb)) (FLT_MAX, - 1)"
  by (simp add: knn_def Let_def min_def)

lemma knn_length: "length (knn xb q k) = k"
  by (simp add: knn_split)

lemma scored_labels:
  assumes "p \<in> set (take k (sort_key fst (zip ds (map int [0..<n]))))"
  shows "0 \<le> snd p \<and> snd p < int n"
proof -
  from assms have "p \<in> set (sort_key fst (zip ds (map int [0..<n])))"
    by (rule in_set_takeD)
  then have "p \<in> set (zip ds (map int [0..<n]))" by simp
  then have "snd p \<in> set (map int [0..<n])" by (metis prod.collapse set_zip_rightD)
  then show ?thesis by auto
qed

lemma knn_labels:
  assumes "p \<in> set (knn xb q k)"
  shows "snd p = - 1 \<or> (0 \<le> snd p \<and> snd p < int (length xb))"
  using assms scored_labels[of p k "map (l2_sqr q) xb" "length xb"]
  by (auto simp: knn_split)

lemma py_index_ok:
  assumes "- int (length xs) \<le> i" and "i < int (length xs)"
  shows "\<exists>x. py_index xs i = Inr x \<and> x \<in> set xs"
  using assms by (auto simp: py_index_def)

lemma lookup_all_ok:
  assumes "\<forall>i \<in> set js. - int (length md) \<le> i \<and> i < int (length md)"
  shows "\<exists>docs. lookup_all md js = Inr docs \<and> length docs = length js"
  using assms
proof (induction js)
  case Nil
  then show ?case by simp
next
  case (Cons j js)
  then obtain docs where d: "lookup_all md js = Inr docs" "length docs = length js" by auto
  from Cons.prems obtain x where "py_index md j = Inr x"
    using py_index_ok[of md j] by auto
  with d show ?case by simp
qed

lemma index_search_singleD:
  assumes "index_search ix [q] k = Inr ([dists], [inds])"
  shows "0 < k \<and> dists = map fst (knn (idx_xb ix) q (nat k)) \<and> inds = map snd (knn (idx_xb ix) q (nat k))"
  using assms by (auto simp: index_search_def split: if_splits)

lemma index_search_rows:
  assumes "index_search ix (q # qs) k = Inr (distances, indices)"
  shows "0 < k \<and> (\<exists>ds is. distances = map fst (knn (idx_xb ix) q (nat k)) # ds
                      \<and> indices = map snd (knn (idx_xb ix) q (nat k)) # is)"
  using assms by (auto simp: index_search_def split: if_splits)

lemma index_search_no_rows:
  assumes "index_search ix [] k = Inr (distances, indices)"
  shows "distances = [] \<and> indices = []"
  using assms by (auto simp: index_search_def split: if_splits)

lemma knn_lookup:
  assumes "md \<noteq> []" and "length xb \<le> length md"
  shows "\<exists>docs. lookup_all md (map snd (knn xb q k)) = Inr docs"
proof -
  have "\<forall>j \<in> set (map snd (knn xb q k)). - int (length md) \<le> j \<and> j < int (length md)"
  proof
    fix j assume "j \<in> set (map snd (knn xb q k))"
    then obtain p where p: "p \<in> set (knn xb q k)" "j = snd p" by auto
    from knn_labels[OF p(1)] assms p(2) show "- int (length md) \<le> j \<and> j < int (length md)"
      by (cases md) auto
  qed
  from lookup_all_ok[OF this] show ?thesis by blast
qed

lemma search_gate_general:
  assumes "snapshot_built s ix"
  shows "fallback_needed (fst (search_rag_index env s query k))
           \<longleftrightarrow> result_set env ix query k = []
                \<or> distance_threshold s < fst (hd (result_set env ix query k))"
proof -
  from assms have ix: "rag_index s = Some ix" and md: "rag_document_metadata s \<noteq> []"
    and al: "length (idx_xb ix) \<le> length (rag_document_metadata s)"
    by (simp_all add: snapshot_built_def ntotal_def)
  show ?thesis
  proof (cases "encode env [query]")
    case (Inl e)
    then show ?thesis using ix md
      by (simp add: result_set_def search_rag_index_def search_body_def fallback_def)
  next
    case enc: (Inr qe)
    show ?thesis
    proof (cases "index_search ix qe k")
      case (Inl e)
      with enc show ?thesis using ix md
        by (simp add: result_set_def search_rag_index_def search_body_def fallback_def)
    next
      case (Inr r)
      obtain distances indices where r: "r = (distances, indices)" by (cases r)
      show ?thesis
      proof (cases qe)
        case Nil
        with Inr r index_search_no_rows[of ix k distances indices]
        have "distances = []" "indices = []" by auto
        with enc Inr r show ?thesis using ix md
          by (simp add: result_set_def search_rag_index_def search_body_def fallback_def
              py_index_def)
      next
        case (Cons q qs)
        let ?nn = "knn (idx_xb ix) q (nat k)"
        from Inr r Cons index_search_rows[of ix q qs k distances indices]
        obtain ds "is" where k: "0 < k" and d: "distances = map fst ?nn # ds"
          and i: "indices = map snd ?nn # is" by auto
        from k have "length ?nn \<noteq> 0" by (simp add: knn_length)
        then obtain p ps where nn: "?nn = p # ps" by (cases ?nn) auto
        from knn_lookup[OF md al, of q "nat k"] obtain docs where
          docs: "lookup_all (rag_document_metadata s) (map snd ?nn) = Inr docs" by blast
        have rs: "result_set env ix query k = zip (map fst ?nn) (map snd ?nn)"
          using enc Inr r d i by (simp add: result_set_def)
        have "search_body env s ix query k =
                (if distance_threshold s < fst p then Inr fallback
                 else Inr \<lparr>results = docs, fallback_needed = False\<rparr>)"
          using enc Inr r d i docs nn by (simp add: search_body_def py_index_def)
        then have "fallback_needed (fst (search_rag_index env s query k))
                     \<longleftrightarrow> distance_threshold s < fst p"
          using ix md by (simp add: search_rag_index_def fallback_def)
        with rs nn show ?thesis by simp
      qed
    qed
  qed
qed

lemma search_keeps_state: "snd (search_rag_index env s query k) = s"
  by (simp add: search_rag_index_def split: option.splits sum.splits)

lemma search_raise_fallback:
  assumes "rag_index s = Some ix" and "search_body env s ix query k = Inl e"
  shows "search_rag_index env s query k = (fallback, s)"
  using assms by (simp add: search_rag_index_def)

text \<open>
  Claim C6. In every state without a snapshot (the index is \<^verbatim>\<open>None\<close>, or there is no
  document), for every query and every \<open>k\<close>, the search returns the empty result list
  with \<open>fallback_needed\<close> true, whatever the collaborators are, and leaves the state
  as it found it: no index is built.
\<close>

theorem search_without_snapshot:
  assumes "snapshot_unset s"
  shows "search_rag_index env s query k = (\<lparr>results = [], fallback_needed = True\<rparr>, s)"
  using assms
  by (auto simp: snapshot_unset_def search_rag_index_def fallback_def split: option.splits)

theorem search_without_snapshot_witness:
  "snapshot_unset empty_state
   \<and> search_rag_index demo_env empty_state (ascii ''pending dental issues'') 3
       = (\<lparr>results = [], fallback_needed = True\<rparr>, empty_state)"
proof -
  have h: "snapshot_unset empty_state" by (simp add: snapshot_unset_def empty_state_def)
  from search_without_snapshot[OF h] h show ?thesis by simp
qed

text \<open>
  Claim C1. On a built snapshot, for every query, every \<open>k\<close> and every behaviour of
  the embedding model, \<open>fallback_needed\<close> is true exactly when the result set is empty
  or its first distance is strictly above the threshold: a first distance equal to the
  threshold does not trigger the fallback, the threshold plus any positive amount does.
\<close>

theorem fallback_gate:
  assumes "snapshot_built s ix"
  shows "(fallback_needed (fst (search_rag_index env s query k))
            \<longleftrightarrow> result_set env ix query k = []
                 \<or> distance_threshold s < fst (hd (result_set env ix query k)))
         \<and> (result_set env ix query k \<noteq> []
              \<and> fst (hd (result_set env ix query k)) = distance_threshold s
              \<longrightarrow> \<not> fallback_needed (fst (search_rag_index env s query k)))
         \<and> (\<forall>eps. 0 < eps \<and> fst (hd (result_set env ix query k)) = distance_threshold s + eps
              \<longrightarrow> fallback_needed (fst (search_rag_index env s query k)))"
  using search_gate_general[OF assms, of env query k] by auto

theorem fallback_gate_witness:
  "snapshot_built demo_state \<lparr>idx_d = 1, idx_xb = [[4], [1]]\<rparr>
   \<and> result_set demo_env \<lparr>idx_d = 1, idx_xb = [[4], [1]]\<rparr> (ascii ''aa'') 3
       = [(1, 1), (4, 0), (FLT_MAX, - 1)]
   \<and> distance_threshold demo_state = 1
   \<and> \<not> fallback_needed (fst (search_rag_index demo_env demo_state (ascii ''aa'') 3))
   \<and> fallback_needed
       (fst (search_rag_index demo_env (demo_state\<lparr>distance_threshold := 1 / 2\<rparr>) (ascii ''aa'') 3))"
proof -
  let ?ix = "\<lparr>idx_d = 1, idx_xb = [[4], [1]]\<rparr>"
  let ?s = "demo_state\<lparr>distance_threshold := 1 / 2\<rparr>"
  have b: "snapshot_built demo_state ?ix"
    by (simp add: snapshot_built_def demo_state_def mock_rows_def ntotal_def)
  have b': "snapshot_built ?s ?ix"
    by (simp add: snapshot_built_def demo_state_def mock_rows_def ntotal_def)
  have r: "result_set demo_env ?ix (ascii ''aa'') 3 = [(1, 1), (4, 0), (FLT_MAX, - 1)]" by code_simp
  have t: "distance_threshold demo_state = 1" by (simp add: demo_state_def)
  have t': "distance_threshold ?s = 1 / 2" by simp
  from fallback_gate[OF b, of demo_env "ascii ''aa''" 3] r t
  have 1: "\<not> fallback_needed (fst (search_rag_index demo_env demo_state (ascii ''aa'') 3))" by simp
  from fallback_gate[OF b', of demo_env "ascii ''aa''" 3] r t'
  have 2: "fallback_needed (fst (search_rag_index demo_env ?s (ascii ''aa'') 3))" by simp
  from b r t 1 2 show ?thesis by blast
qed

section \<open>Fewer documents than neighbours asked for\<close>

lemma lookup_all_append:
  "lookup_all md (a @ b) =
     (case lookup_all md a of
        Inl e \<Rightarrow> Inl e
      | Inr x \<Rightarrow> (case lookup_all md b of Inl e \<Rightarrow> Inl e | Inr y \<Rightarrow> Inr (x @ y)))"
  by (induction a) (auto split: sum.splits)

lemma lookup_all_nonneg:
  assumes "\<forall>j \<in> set js. 0 \<le> j \<and> j < int (length md)"
  shows "lookup_all md js = Inr (map (\<lambda>j. md ! nat j) js)"
  using assms by (induction js) (auto simp: py_index_def)

lemma py_index_last:
  assumes "md \<noteq> []"
  shows "py_index md (- 1) = Inr (last md)"
proof -
  from assms obtain x xs where c: "md = x # xs" by (cases md) auto
  show ?thesis unfolding c by (simp add: py_index_def last_conv_nth)
qed

lemma lookup_all_padding:
  assumes "md \<noteq> []"
  shows "lookup_all md (replicate m (- 1)) = Inr (replicate m (last md))"
  using py_index_last[OF assms] by (induction m) auto

lemma knn_all:
  assumes "length xb \<le> k"
  shows "map snd (knn xb q k) =
           map snd (sort_key fst (zip (map (l2_sqr q) xb) (map int [0..<length xb])))
           @ replicate (k - length xb) (- 1)"
  using assms by (simp add: knn_split min_def)

lemma sorted_labels_set:
  "set (map snd (sort_key fst (zip (map f xb) (map int [0..<length xb])))) = int ` {0..<length xb}"
proof -
  let ?Z = "zip (map f xb) (map int [0..<length xb])"
  have A: "map snd ?Z = map int [0..<length xb]" by (rule map_snd_zip) simp
  have "set (map snd (sort_key fst ?Z)) = snd ` set ?Z" by (simp only: set_map set_sort)
  also have "\<dots> = set (map snd ?Z)" by (simp only: set_map)
  also have "\<dots> = set (map int [0..<length xb])" by (simp only: A)
  also have "\<dots> = int ` {0..<length xb}" by simp
  finally show ?thesis .
qed

lemma sorted_labels_distinct:
  "distinct (map snd (sort_key fst (zip (map f xb) (map int [0..<length xb]))))"
proof -
  let ?l = "map snd (sort_key fst (zip (map f xb) (map int [0..<length xb])))"
  have "card (set ?l) = card (int ` {0..<length xb})" by (simp only: sorted_labels_set)
  also have "\<dots> = length xb" by (simp add: card_image)
  also have "\<dots> = length ?l" by simp
  finally show ?thesis by (rule card_distinct)
qed

text \<open>
  Claim C10. On a built snapshot with fewer documents than \<open>k\<close>, when the first
  distance does not exceed the threshold, the search answers without fallback with
  exactly \<open>k\<close> results: the index labels each of the documents once, then pads with
  \<open>-1\<close>, and each padding label selects the last document of the snapshot again.
\<close>

theorem padded_results:
  assumes "snapshot_built s ix" and "int (ntotal ix) < k"
    and "encode env [query] = Inr [q]"
    and "index_search ix [q] k = Inr ([dists], [inds])"
    and "hd dists \<le> distance_threshold s"
  shows "\<exists>docs. search_rag_index env s query k = (\<lparr>results = docs, fallback_needed = False\<rparr>, s)
           \<and> length docs = nat k
           \<and> set (take (ntotal ix) inds) = int ` {0..<ntotal ix}
           \<and> distinct (take (ntotal ix) inds)
           \<and> take (ntotal ix) docs = map (\<lambda>i. rag_document_metadata s ! nat i) (take (ntotal ix) inds)
           \<and> drop (ntotal ix) inds = replicate (nat k - ntotal ix) (- 1)
           \<and> drop (ntotal ix) docs
               = replicate (nat k - ntotal ix) (last (rag_document_metadata s))"
proof -
  let ?md = "rag_document_metadata s" and ?n = "ntotal ix"
  let ?best = "map snd (sort_key fst (zip (map (l2_sqr q) (idx_xb ix)) (map int [0..<length (idx_xb ix)])))"
  from assms(1) have ix: "rag_index s = Some ix" and md: "?md \<noteq> []"
    and al: "?n = length ?md" by (simp_all add: snapshot_built_def)
  from index_search_singleD[OF assms(4)] have k: "0 < k"
    and d: "dists = map fst (knn (idx_xb ix) q (nat k))"
    and i: "inds = map snd (knn (idx_xb ix) q (nat k))" by auto
  from assms(2) have nk: "length (idx_xb ix) \<le> nat k" by (simp add: ntotal_def)
  from i knn_all[OF nk] have inds: "inds = ?best @ replicate (nat k - ?n) (- 1)"
    by (simp add: ntotal_def)
  have lb: "length ?best = ?n" by (simp add: ntotal_def)
  have sb: "set ?best = int ` {0..<?n}" unfolding ntotal_def by (rule sorted_labels_set)
  have db: "distinct ?best" by (rule sorted_labels_distinct)
  have "\<forall>j \<in> set ?best. 0 \<le> j \<and> j < int (length ?md)"
    using sb al by auto
  from lookup_all_nonneg[OF this]
  have l1: "lookup_all ?md ?best = Inr (map (\<lambda>j. ?md ! nat j) ?best)" .
  define docs where "docs = map (\<lambda>j. ?md ! nat j) ?best @ replicate (nat k - ?n) (last ?md)"
  have l: "lookup_all ?md inds = Inr docs"
    unfolding docs_def by (subst inds) (simp add: lookup_all_append l1 lookup_all_padding[OF md])
  from d k have dne: "dists \<noteq> []" using knn_length[of "idx_xb ix" q "nat k"] by auto
  then obtain d0 ds where dd: "dists = d0 # ds" by (cases dists) auto
  from i k have ine: "inds \<noteq> []" using knn_length[of "idx_xb ix" q "nat k"] by auto
  from assms(5) dd have le: "\<not> distance_threshold s < d0" by simp
  have "search_body env s ix query k = Inr \<lparr>results = docs, fallback_needed = False\<rparr>"
    using assms(3) assms(4) dd ine l le by (simp add: search_body_def py_index_def)
  then have r: "search_rag_index env s query k = (\<lparr>results = docs, fallback_needed = False\<rparr>, s)"
    using ix md by (simp add: search_rag_index_def)
  have len: "length docs = nat k" using assms(2) by (simp add: docs_def ntotal_def)
  have t1: "take ?n inds = ?best" using lb by (subst inds) simp
  have t2: "drop ?n inds = replicate (nat k - ?n) (- 1)" using lb by (subst inds) simp
  have t3: "take ?n docs = map (\<lambda>j. ?md ! nat j) ?best" using lb by (simp add: docs_def)
  have t4: "drop ?n docs = replicate (nat k - ?n) (last ?md)" using lb by (simp add: docs_def)
  from r len t1 t2 t3 t4 sb db show ?thesis by auto
qed

theorem padded_results_witness:
  "snapshot_built demo_state \<lparr>idx_d = 1, idx_xb = [[4], [1]]\<rparr>
   \<and> search_rag_index demo_env demo_state (ascii ''aa'') 3
       = (\<lparr>results = [mock_rows ! 1, mock_rows ! 0, mock_rows ! 1],
           fallback_needed = False\<rparr>, demo_state)
   \<and> (\<exists>docs. search_rag_index demo_env demo_state (ascii ''aa'') 3
                = (\<lparr>results = docs, fallback_needed = False\<rparr>, demo_state)
          \<and> length docs = 3
          \<and> drop 2 docs = [last mock_rows])"
proof -
  let ?ix = "\<lparr>idx_d = 1, idx_xb = [[4], [1]]\<rparr>"
  have b: "snapshot_built demo_state ?ix"
    by (simp add: snapshot_built_def demo_state_def mock_rows_def ntotal_def)
  have n: "int (ntotal ?ix) < 3" by (simp add: ntotal_def)
  have e: "encode demo_env [ascii ''aa''] = Inr [[2]]" by (simp add: demo_env_def ascii_def)
  have i: "index_search ?ix [[2]] 3 = Inr ([[1, 4, FLT_MAX]], [[1, 0, - 1]])" by code_simp
  have t: "hd [1, 4, FLT_MAX] \<le> distance_threshold demo_state" by (simp add: demo_state_def)
  have m: "rag_document_metadata demo_state = mock_rows" by (simp add: demo_state_def)
  have c: "search_rag_index demo_env demo_state (ascii ''aa'') 3
       = (\<lparr>results = [mock_rows ! 1, mock_rows ! 0, mock_rows ! 1],
           fallback_needed = False\<rparr>, demo_state)" by code_simp
  from padded_results[OF b n e i t] obtain docs where
    D: "search_rag_index demo_env demo_state (ascii ''aa'') 3
          = (\<lparr>results = docs, fallback_needed = False\<rparr>, demo_state)"
      "length docs = nat 3"
      "drop (ntotal ?ix) docs
          = replicate (nat 3 - ntotal ?ix) (last (rag_document_metadata demo_state))"
    by blast
  have n2: "ntotal ?ix = 2" by (simp add: ntotal_def)
  from D(3) have "drop 2 docs = [last mock_rows]" unfolding n2 m by simp
  with D(1) D(2) have "\<exists>docs. search_rag_index demo_env demo_state (ascii ''aa'') 3
                = (\<lparr>results = docs, fallback_needed = False\<rparr>, demo_state)
          \<and> length docs = 3
          \<and> drop 2 docs = [last mock_rows]"
    by auto
  with b c show ?thesis by blast
qed

section \<open>The index build\<close>

lemma index_documents_acc:
  "index_documents claims (metadata, texts) =
     (metadata @ filter has_id claims, texts @ map text_representation (filter has_id claims))"
  by (induction claims arbitrary: metadata texts) (simp_all add: has_id_def)

lemma index_documents_eq:
  "index_documents claims ([], []) =
     (filter has_id claims, map text_representation (filter has_id claims))"
  by (simp add: index_documents_acc)

lemma build_never_raises: "\<exists>s'. build_rag_index env s = Inr s'"
  by (simp add: build_rag_index_def split: prod.splits option.splits)

lemma build_no_rows:
  assumes "execute_query env build_query [] = Inr []"
  shows "build_rag_index env s = Inr s"
  using assms by (simp add: build_rag_index_def build_body_def)

lemma build_store_raises:
  assumes "execute_query env build_query [] = Inl e"
  shows "build_rag_index env s = Inr (s\<lparr>rag_index := None\<rparr>)"
  using assms by (simp add: build_rag_index_def build_body_def)

lemma build_no_valid:
  assumes "execute_query env build_query [] = Inr claims" and "claims \<noteq> []"
    and "filter has_id claims = []"
  shows "build_rag_index env s = Inr (s\<lparr>rag_document_metadata := [], rag_document_texts := []\<rparr>)"
  using assms by (simp add: build_rag_index_def build_body_def index_documents_eq)

lemma build_encode_raises:
  assumes "execute_query env build_query [] = Inr claims" and "claims \<noteq> []"
    and "filter has_id claims \<noteq> []"
    and "encode env (map text_representation (filter has_id claims)) = Inl e"
  shows "build_rag_index env s =
           Inr (s\<lparr>rag_document_metadata := filter has_id claims,
                  rag_document_texts := map text_representation (filter has_id claims),
                  rag_index := None\<rparr>)"
  using assms by (simp add: build_rag_index_def build_body_def index_documents_eq)

lemma shape1_D:
  assumes "shape1 embeddings = Inr dimension"
  shows "embeddings \<noteq> [] \<and> dimension = length (hd embeddings)
         \<and> list_all (\<lambda>x. length x = dimension) embeddings"
  using assms by (auto simp: shape1_def split: list.splits if_splits)

lemma build_encoded:
  assumes "execute_query env build_query [] = Inr claims" and "claims \<noteq> []"
    and "filter has_id claims \<noteq> []"
    and "encode env (map text_representation (filter has_id claims)) = Inr embeddings"
  shows "build_rag_index env s =
           Inr (s\<lparr>rag_document_metadata := filter has_id claims,
                  rag_document_texts := map text_representation (filter has_id claims),
                  rag_index := (case shape1 embeddings of
                                  Inl e \<Rightarrow> None
                                | Inr dimension \<Rightarrow> Some \<lparr>idx_d = dimension, idx_xb = embeddings\<rparr>)\<rparr>)"
proof (cases "shape1 embeddings")
  case (Inl e)
  with assms show ?thesis
    by (simp add: build_rag_index_def build_body_def index_documents_eq)
next
  case (Inr dimension)
  from shape1_D[OF Inr] have "list_all (\<lambda>x. length x = dimension) embeddings" by blast
  then have "index_add (IndexFlatL2 dimension) embeddings
      = Inr \<lparr>idx_d = dimension, idx_xb = embeddings\<rparr>"
    by (simp add: index_add_def IndexFlatL2_def)
  with assms Inr show ?thesis
    by (simp add: build_rag_index_def build_body_def index_documents_eq)
qed

lemma build_gives_snapshot:
  assumes "execute_query env build_query [] = Inr claims"
    and "filter has_id claims \<noteq> []"
    and "encode env (map text_representation (filter has_id claims)) = Inr embeddings"
    and "length embeddings = length (filter has_id claims)"
    and "shape1 embeddings = Inr dimension"
  shows "\<exists>s'. build_rag_index env s = Inr s'
           \<and> snapshot_built s' \<lparr>idx_d = dimension, idx_xb = embeddings\<rparr>"
proof -
  from assms(2) have ne: "claims \<noteq> []" by auto
  from build_encoded[OF assms(1) ne assms(2) assms(3), of s] assms(2) assms(4) assms(5)
  show ?thesis by (simp add: snapshot_built_def ntotal_def)
qed

lemma demo_state_built: "build_rag_index demo_env empty_state = Inr demo_state"
  by code_simp


lemma build_outcome:
  "build_rag_index env s =
     Inr (case execute_query env build_query [] of
            Inl e \<Rightarrow> s\<lparr>rag_index := None\<rparr>
          | Inr claims \<Rightarrow>
              if claims = [] then s
              else if filter has_id claims = []
              then s\<lparr>rag_document_metadata := [], rag_document_texts := []\<rparr>
              else
                (case encode env (map text_representation (filter has_id claims)) of
                   Inl e \<Rightarrow>
                     s\<lparr>rag_document_metadata := filter has_id claims,
                       rag_document_texts := map text_representation (filter has_id claims),
                       rag_index := None\<rparr>
                 | Inr embeddings \<Rightarrow>
                     s\<lparr>rag_document_metadata := filter has_id claims,
                       rag_document_texts := map text_representation (filter has_id claims),
                       rag_index :=
                         (case shape1 embeddings of
                            Inl e \<Rightarrow> None
                          | Inr dimension \<Rightarrow>
                              Some \<lparr>idx_d = dimension, idx_xb = embeddings\<rparr>)\<rparr>))"
proof (cases "execute_query env build_query []")
  case (Inl e)
  with build_store_raises[OF Inl, of s] show ?thesis by simp
next
  case (Inr claims)
  show ?thesis
  proof (cases "claims = []")
    case True
    with Inr build_no_rows[of env s] show ?thesis by simp
  next
    case ne: False
    show ?thesis
    proof (cases "filter has_id claims = []")
      case True
      with Inr ne build_no_valid[OF Inr ne True, of s] show ?thesis by simp
    next
      case v: False
      show ?thesis
      proof (cases "encode env (map text_representation (filter has_id claims))")
        case (Inl e)
        with Inr ne v build_encode_raises[OF Inr ne v Inl, of s] show ?thesis by simp
      next
        case enc: (Inr embeddings)
        with Inr ne v build_encoded[OF Inr ne v enc, of s] show ?thesis by simp
      qed
    qed
  qed
qed




section \<open>Rebuilding over an existing snapshot\<close>

text \<open>
  A rebuild over a built snapshot, with a store whose rows have no identifier, returns
  with the old index still in place and the document list emptied: the lists of the
  existing snapshot are cleared in place, and what is left is neither the old snapshot
  nor a new one. With an embedding model that raises, the rebuild drops the old index.
  The search that was answered from the snapshot before the rebuild is shown for
  comparison.
\<close>

theorem rebuild_in_place_counterexample:
  "rag_index demo_state = Some \<lparr>idx_d = 1, idx_xb = [[4], [1]]\<rparr>
   \<and> rag_document_metadata demo_state = mock_rows
   \<and> fst (search_rag_index noid_env demo_state (ascii ''aa'') 3)
       = \<lparr>results = [mock_rows ! 1, mock_rows ! 0, mock_rows ! 1], fallback_needed = False\<rparr>
   \<and> build_rag_index noid_env demo_state
       = Inr (demo_state\<lparr>rag_document_metadata := [], rag_document_texts := []\<rparr>)
   \<and> rag_index (demo_state\<lparr>rag_document_metadata := [], rag_document_texts := []\<rparr>)
       = Some \<lparr>idx_d = 1, idx_xb = [[4], [1]]\<rparr>
   \<and> build_rag_index broken_env demo_state
       = Inr (demo_state\<lparr>rag_index := None\<rparr>)"
  by code_simp

text \<open>
  Claim C7, as amended. A rebuild does not replace the snapshot as a whole: it
  overwrites the document and text lists first and the index last, and it always
  returns. Its result is the following. If the store query raises, the lists are kept
  and the index is unset. If the store returns no rows, the state is unchanged. If no
  row has an identifier, both lists are emptied and the old index is left in place. If
  the embedding raises, or its result has no row length, the lists hold the new
  documents and the index is unset. Otherwise the lists hold the new documents and the
  index holds exactly their embeddings. Hence, whenever the state after a rebuild has
  an index and documents, it is either the state before the rebuild, the store having
  returned no rows, or the complete new snapshot: new documents are never left paired
  with the vectors of the old index.
\<close>

theorem rebuild_outcomes:
  "build_rag_index env s =
     Inr (case execute_query env build_query [] of
            Inl e \<Rightarrow> s\<lparr>rag_index := None\<rparr>
          | Inr claims \<Rightarrow>
              if claims = [] then s
              else if filter has_id claims = []
              then s\<lparr>rag_document_metadata := [], rag_document_texts := []\<rparr>
              else
                (case encode env (map text_representation (filter has_id claims)) of
                   Inl e \<Rightarrow>
                     s\<lparr>rag_document_metadata := filter has_id claims,
                       rag_document_texts := map text_representation (filter has_id claims),
                       rag_index := None\<rparr>
                 | Inr embeddings \<Rightarrow>
                     s\<lparr>rag_document_metadata := filter has_id claims,
                       rag_document_texts := map text_representation (filter has_id claims),
                       rag_index :=
                         (case shape1 embeddings of
                            Inl e \<Rightarrow> None
                          | Inr dimension \<Rightarrow>
                              Some \<lparr>idx_d = dimension, idx_xb = embeddings\<rparr>)\<rparr>))
   \<and> (\<forall>s' ix. build_rag_index env s = Inr s' \<and> rag_index s' = Some ix
           \<and> rag_document_metadata s' \<noteq> []
         \<longrightarrow> s' = s \<and> execute_query env build_query [] = Inr []
             \<or> (\<exists>claims embeddings.
                   execute_query env build_query [] = Inr claims
                   \<and> rag_document_metadata s' = filter has_id claims
                   \<and> rag_document_texts s' = map text_representation (filter has_id claims)
                   \<and> encode env (rag_document_texts s') = Inr embeddings
                   \<and> ix = \<lparr>idx_d = length (hd embeddings), idx_xb = embeddings\<rparr>))"
proof -
  have pair: "s' = s \<and> execute_query env build_query [] = Inr []
             \<or> (\<exists>claims embeddings.
                   execute_query env build_query [] = Inr claims
                   \<and> rag_document_metadata s' = filter has_id claims
                   \<and> rag_document_texts s' = map text_representation (filter has_id claims)
                   \<and> encode env (rag_document_texts s') = Inr embeddings
                   \<and> ix = \<lparr>idx_d = length (hd embeddings), idx_xb = embeddings\<rparr>)"
    if b: "build_rag_index env s = Inr s'" and i: "rag_index s' = Some ix"
      and m: "rag_document_metadata s' \<noteq> []" for s' ix
  proof (cases "execute_query env build_query []")
    case (Inl e)
    from build_store_raises[OF Inl, of s] b i show ?thesis by auto
  next
    case (Inr claims)
    show ?thesis
    proof (cases "claims = []")
      case True
      with Inr build_no_rows[of env s] b show ?thesis by auto
    next
      case ne: False
      show ?thesis
      proof (cases "filter has_id claims = []")
        case True
        from build_no_valid[OF Inr ne True, of s] b m show ?thesis by auto
      next
        case v: False
        show ?thesis
        proof (cases "encode env (map text_representation (filter has_id claims))")
          case (Inl e)
          from build_encode_raises[OF Inr ne v Inl, of s] b i show ?thesis by auto
        next
          case enc: (Inr embeddings)
          show ?thesis
          proof (cases "shape1 embeddings")
            case (Inl e)
            with build_encoded[OF Inr ne v enc, of s] b i show ?thesis by auto
          next
            case sh: (Inr dimension)
            from shape1_D[OF sh] have dim: "dimension = length (hd embeddings)" by blast
            from sh build_encoded[OF Inr ne v enc, of s] b
            have s': "s' = s\<lparr>rag_document_metadata := filter has_id claims,
                  rag_document_texts := map text_representation (filter has_id claims),
                  rag_index := Some \<lparr>idx_d = dimension, idx_xb = embeddings\<rparr>\<rparr>"
              by simp
            with i dim have "ix = \<lparr>idx_d = length (hd embeddings), idx_xb = embeddings\<rparr>"
              by simp
            with s' Inr enc show ?thesis by auto
          qed
        qed
      qed
    qed
  qed
  show ?thesis
  proof (rule conjI)
    show "build_rag_index env s =
     Inr (case execute_query env build_query [] of
            Inl e \<Rightarrow> s\<lparr>rag_index := None\<rparr>
          | Inr claims \<Rightarrow>
              if claims = [] then s
              else if filter has_id claims = []
              then s\<lparr>rag_document_metadata := [], rag_document_texts := []\<rparr>
              else
                (case encode env (map text_representation (filter has_id claims)) of
                   Inl e \<Rightarrow>
                     s\<lparr>rag_document_metadata := filter has_id claims,
                       rag_document_texts := map text_representation (filter has_id claims),
                       rag_index := None\<rparr>
                 | Inr embeddings \<Rightarrow>
                     s\<lparr>rag_document_metadata := filter has_id claims,
                       rag_document_texts := map text_representation (filter has_id claims),
                       rag_index :=
                         (case shape1 embeddings of
                            Inl e \<Rightarrow> None
                          | Inr dimension \<Rightarrow>
                              Some \<lparr>idx_d = dimension, idx_xb = embeddings\<rparr>)\<rparr>))"
      by (rule build_outcome)
  next
    show "\<forall>s' ix. build_rag_index env s = Inr s' \<and> rag_index s' = Some ix
           \<and> rag_document_metadata s' \<noteq> []
         \<longrightarrow> s' = s \<and> execute_query env build_query [] = Inr []
             \<or> (\<exists>claims embeddings.
                   execute_query env build_query [] = Inr claims
                   \<and> rag_document_metadata s' = filter has_id claims
                   \<and> rag_document_texts s' = map text_representation (filter has_id claims)
                   \<and> encode env (rag_document_texts s') = Inr embeddings
                   \<and> ix = \<lparr>idx_d = length (hd embeddings), idx_xb = embeddings\<rparr>)"
    proof (intro allI impI)
      fix s' ix
      assume "build_rag_index env s = Inr s' \<and> rag_index s' = Some ix
           \<and> rag_document_metadata s' \<noteq> []"
      then have "build_rag_index env s = Inr s'" "rag_index s' = Some ix"
        "rag_document_metadata s' \<noteq> []" by simp_all
      then show "s' = s \<and> execute_query env build_query [] = Inr []
             \<or> (\<exists>claims embeddings.
                   execute_query env build_query [] = Inr claims
                   \<and> rag_document_metadata s' = filter has_id claims
                   \<and> rag_document_texts s' = map text_representation (filter has_id claims)
                   \<and> encode env (rag_document_texts s') = Inr embeddings
                   \<and> ix = \<lparr>idx_d = length (hd embeddings), idx_xb = embeddings\<rparr>)"
        by (rule pair)
    qed
  qed
qed

theorem rebuild_outcomes_witness:
  "build_rag_index noid_env demo_state
     = Inr (demo_state\<lparr>rag_document_metadata := [], rag_document_texts := []\<rparr>)
   \<and> build_rag_index demo_env empty_state = Inr demo_state
   \<and> rag_index demo_state = Some \<lparr>idx_d = 1, idx_xb = [[4], [1]]\<rparr>
   \<and> rag_document_metadata demo_state = filter has_id mock_rows
   \<and> encode demo_env (rag_document_texts demo_state) = Inr [[4], [1]]"
proof -
  have n: "execute_query noid_env build_query [] = Inr [[(''claim_type'', PyStr (ascii ''Dental''))]]"
    by (simp add: execute_query_def noid_env_def)
  have f: "filter has_id [[(''claim_type'', PyStr (ascii ''Dental''))]] = []" by code_simp
  from rebuild_outcomes[of noid_env demo_state]
  have "build_rag_index noid_env demo_state =
     Inr (case execute_query noid_env build_query [] of
            Inl e \<Rightarrow> demo_state\<lparr>rag_index := None\<rparr>
          | Inr claims \<Rightarrow>
              if claims = [] then demo_state
              else if filter has_id claims = []
              then demo_state\<lparr>rag_document_metadata := [], rag_document_texts := []\<rparr>
              else
                (case encode noid_env (map text_representation (filter has_id claims)) of
                   Inl e \<Rightarrow>
                     demo_state\<lparr>rag_document_metadata := filter has_id claims,
                       rag_document_texts := map text_representation (filter has_id claims),
                       rag_index := None\<rparr>
                 | Inr embeddings \<Rightarrow>
                     demo_state\<lparr>rag_document_metadata := filter has_id claims,
                       rag_document_texts := map text_representation (filter has_id claims),
                       rag_index :=
                         (case shape1 embeddings of
                            Inl e \<Rightarrow> None
                          | Inr dimension \<Rightarrow>
                              Some \<lparr>idx_d = dimension, idx_xb = embeddings\<rparr>)\<rparr>))"
    by (rule conjunct1)
  then have 1: "build_rag_index noid_env demo_state
     = Inr (demo_state\<lparr>rag_document_metadata := [], rag_document_texts := []\<rparr>)"
    by (simp only: n f sum.case list.simps if_False if_True refl)
  have 2: "build_rag_index demo_env empty_state = Inr demo_state" by code_simp
  have 3: "rag_index demo_state = Some \<lparr>idx_d = 1, idx_xb = [[4], [1]]\<rparr>"
    by (simp add: demo_state_def)
  have m: "rag_document_metadata demo_state = filter has_id mock_rows" by code_simp
  have e: "encode demo_env (rag_document_texts demo_state) = Inr [[4], [1]]" by code_simp
  from 1 2 3 m e show ?thesis by blast
qed

section \<open>The count rule and its context\<close>

lemma ensure_built_total: "\<exists>s1. ensure_built env s = Inr s1"
  using build_never_raises[of env s] by (simp add: ensure_built_def)






text \<open>A count keyword next to an identifier written with the Kelvin sign (U+212A): the
  lower case of the sign is \<^verbatim>\<open>k\<close>, and the request is an identifier lookup.\<close>

lemma kelvin_sign_lookup:
  "classify demo_env (ascii ''count CLM-'' @ [0x212A] @ ascii ''1'') = IdLookup (ascii ''CLM-K1'')"
  by code_simp



section \<open>Failures inside the response stream\<close>

lemma stream_body_generation:
  assumes "ensure_built env s = Inr s1"
    and "build_context env s1 user_message = Inr context"
    and "send_message env [] (prompt_of context user_message) = (chunks, raised)"
  shows "stream_body env s user_message conversation_id
           = ((filter (\<lambda>text. text \<noteq> []) chunks, raised), s1)"
  using assms by (simp add: stream_body_def)

lemma stream_body_context_raises:
  assumes "ensure_built env s = Inr s1"
    and "build_context env s1 user_message = Inl e"
  shows "stream_body env s user_message conversation_id = (([], Some e), s1)"
  using assms by (simp add: stream_body_def)

lemma error_fragment_text:
  "error_fragment (Error msg)
     = [0x26A0, 0xFE0F] @ ascii '' Error processing your request: '' @ msg"
  by (simp add: error_fragment_def error_marker_def warning_sign_def)

text \<open>
  A generative model that delivers one chunk and then raises: the response carries that
  chunk, then the error fragment, then the \<^verbatim>\<open>done\<close> event. The error fragment is not the
  only fragment of the stream.
\<close>

theorem partial_stream_counterexample:
  "send_message quota_env []
       (prompt_of (ascii ''The total number of claims in the database is 42.'')
          (ascii ''how many claims are there''))
     = ([ascii ''Two ''], Some (Error (ascii ''quota exceeded'')))
   \<and> build_context quota_env demo_state (ascii ''how many claims are there'')
       = Inr (ascii ''The total number of claims in the database is 42.'')
   \<and> generate_response quota_env demo_state (ascii ''how many claims are there'') None
       = (([ChunkEvent (ascii ''Two ''),
            ChunkEvent ([0x26A0, 0xFE0F]
                        @ ascii '' Error processing your request: quota exceeded''),
            DoneEvent],
           None), demo_state)"
  by code_simp

text \<open>
  Claim C5, as amended. When the generative model raises, the events of the response
  are the non-empty chunks it delivered before the failure, in order, then exactly one
  fragment made of the warning sign (U+26A0, U+FE0F), the words
  \<^verbatim>\<open> Error processing your request: \<close> and the message of the exception, then the
  \<^verbatim>\<open>done\<close> event; the generator ends without an exception. When nothing was delivered
  before the failure, the error fragment and the \<^verbatim>\<open>done\<close> event are the whole response.
\<close>

theorem generation_failure_stream:
  assumes "ensure_built env s = Inr s1"
    and "build_context env s1 user_message = Inr context"
    and "send_message env [] (prompt_of context user_message) = (chunks, Some (Error msg))"
  shows "generate_response env s user_message conversation_id
           = ((map ChunkEvent (filter (\<lambda>text. text \<noteq> []) chunks)
                 @ [ChunkEvent ([0x26A0, 0xFE0F] @ ascii '' Error processing your request: ''
                                @ msg),
                    DoneEvent],
               None), s1)
         \<and> (filter (\<lambda>text. text \<noteq> []) chunks = []
              \<longrightarrow> generate_response env s user_message conversation_id
                    = (([ChunkEvent ([0x26A0, 0xFE0F]
                                     @ ascii '' Error processing your request: '' @ msg),
                         DoneEvent],
                        None), s1))"
proof -
  from stream_body_generation[OF assms]
  have "stream_response env s user_message conversation_id
          = ((filter (\<lambda>text. text \<noteq> []) chunks @ [error_fragment (Error msg)], None), s1)"
    by (simp add: stream_response_def)
  then have "generate_response env s user_message conversation_id
           = ((map ChunkEvent (filter (\<lambda>text. text \<noteq> []) chunks)
                 @ [ChunkEvent (error_fragment (Error msg)), DoneEvent], None), s1)"
    by (simp add: generate_response_def)
  then show ?thesis by (simp only: error_fragment_text) simp
qed

theorem generation_failure_stream_witness:
  "ensure_built refusing_env demo_state = Inr demo_state
   \<and> build_context refusing_env demo_state (ascii ''how many claims are there'')
       = Inr (ascii ''The total number of claims in the database is 42.'')
   \<and> send_message refusing_env []
         (prompt_of (ascii ''The total number of claims in the database is 42.'')
            (ascii ''how many claims are there''))
       = ([], Some (Error (ascii ''quota exceeded'')))
   \<and> generate_response refusing_env demo_state (ascii ''how many claims are there'') None
       = (([ChunkEvent ([0x26A0, 0xFE0F] @ ascii '' Error processing your request: ''
                        @ ascii ''quota exceeded''),
            DoneEvent],
           None), demo_state)"
proof -
  let ?ctx = "ascii ''The total number of claims in the database is 42.''"
  let ?msg = "ascii ''how many claims are there''"
  have h1: "ensure_built refusing_env demo_state = Inr demo_state"
    by (simp add: ensure_built_def demo_state_def)
  have h2: "build_context refusing_env demo_state ?msg = Inr ?ctx" by code_simp
  have h3: "send_message refusing_env [] (prompt_of ?ctx ?msg)
              = ([], Some (Error (ascii ''quota exceeded'')))"
    by (simp add: refusing_env_def)
  from generation_failure_stream[OF h1 h2 h3, of None]
  have "generate_response refusing_env demo_state ?msg None
       = (([ChunkEvent ([0x26A0, 0xFE0F] @ ascii '' Error processing your request: ''
                        @ ascii ''quota exceeded''),
            DoneEvent],
           None), demo_state)"
    by simp
  with h1 h2 h3 show ?thesis by blast
qed

text \<open>
  A count question while the store is down: \<^verbatim>\<open>execute_query\<close> raises, and the response is
  a normal stream of one error-marked fragment and the \<^verbatim>\<open>done\<close> event. No exception
  reaches the caller.
\<close>

theorem store_failure_masked_counterexample:
  "classify down_env (ascii ''how many claims are there'') = CountQuery
   \<and> execute_query down_env count_query [] = Inl (Error (ascii ''connection lost''))
   \<and> generate_response down_env demo_state (ascii ''how many claims are there'') None
       = (([ChunkEvent ([0x26A0, 0xFE0F]
                        @ ascii '' Error processing your request: connection lost''),
            DoneEvent],
           None), demo_state)"
  by code_simp

text \<open>
  Claim C2, as amended. For a request routed to the identifier lookup or to the count, a
  failure of the store query is caught by the handler of \<^verbatim>\<open>stream_response\<close>: the
  response is exactly one fragment, made of the warning sign, the words
  \<^verbatim>\<open> Error processing your request: \<close> and the message of the failure, then the
  \<^verbatim>\<open>done\<close> event, and the generator ends normally.
\<close>

theorem store_failure_in_band:
  assumes "ensure_built env s = Inr s1"
    and "classify env user_message = IdLookup claim_id
           \<and> execute_query env lookup_query [PyStr claim_id] = Inl (Error msg)
         \<or> classify env user_message = CountQuery
           \<and> execute_query env count_query [] = Inl (Error msg)"
  shows "generate_response env s user_message conversation_id
           = (([ChunkEvent (error_fragment (Error msg)), DoneEvent], None), s1)
         \<and> error_fragment (Error msg)
             = [0x26A0, 0xFE0F] @ ascii '' Error processing your request: '' @ msg"
proof -
  from assms(2) have "build_context env s1 user_message = Inl (Error msg)"
    by (auto simp: build_context_def)
  from stream_body_context_raises[OF assms(1) this]
  have "generate_response env s user_message conversation_id
           = (([ChunkEvent (error_fragment (Error msg)), DoneEvent], None), s1)"
    by (simp add: stream_response_def generate_response_def)
  with error_fragment_text show ?thesis by blast
qed

theorem store_failure_in_band_witness:
  "ensure_built down_env demo_state = Inr demo_state
   \<and> classify down_env (ascii ''status of CLM-AB12-99999'') = IdLookup (ascii ''CLM-AB12-99999'')
   \<and> execute_query down_env lookup_query [PyStr (ascii ''CLM-AB12-99999'')]
       = Inl (Error (ascii ''connection lost''))
   \<and> generate_response down_env demo_state (ascii ''status of CLM-AB12-99999'') None
       = (([ChunkEvent ([0x26A0, 0xFE0F] @ ascii '' Error processing your request: ''
                        @ ascii ''connection lost''),
            DoneEvent],
           None), demo_state)"
proof -
  let ?msg = "ascii ''status of CLM-AB12-99999''"
  have h1: "ensure_built down_env demo_state = Inr demo_state"
    by (simp add: ensure_built_def demo_state_def)
  have c: "classify down_env ?msg = IdLookup (ascii ''CLM-AB12-99999'')" by code_simp
  have q: "execute_query down_env lookup_query [PyStr (ascii ''CLM-AB12-99999'')]
       = Inl (Error (ascii ''connection lost''))"
    by (simp add: execute_query_def down_env_def)
  from c q have h2: "classify down_env ?msg = IdLookup (ascii ''CLM-AB12-99999'')
           \<and> execute_query down_env lookup_query [PyStr (ascii ''CLM-AB12-99999'')]
               = Inl (Error (ascii ''connection lost''))
         \<or> classify down_env ?msg = CountQuery
           \<and> execute_query down_env count_query [] = Inl (Error (ascii ''connection lost''))"
    by blast
  from store_failure_in_band[OF h1 h2, of None]
  have "generate_response down_env demo_state ?msg None
       = (([ChunkEvent ([0x26A0, 0xFE0F] @ ascii '' Error processing your request: ''
                        @ ascii ''connection lost''),
            DoneEvent],
           None), demo_state)"
    by simp
  with h1 c q show ?thesis by blast
qed

section \<open>The conversation identifier\<close>

lemma lower_at_model_free: "lower_at (env\<lparr>send_message := g\<rparr>) = lower_at env"
  by (intro ext) (simp add: lower_at_def Let_def)

lemma lower_model_free: "lower (env\<lparr>send_message := g\<rparr>) t = lower env t"
  by (simp add: lower_def lower_at_model_free)

lemma upper_char_model_free: "upper_char (env\<lparr>send_message := g\<rparr>) = upper_char env"
  by (intro ext) (simp add: upper_char_def)

lemma upper_model_free: "upper (env\<lparr>send_message := g\<rparr>) t = upper env t"
  by (simp add: upper_def upper_char_model_free)

lemma classify_model_free: "classify (env\<lparr>send_message := g\<rparr>) t = classify env t"
  by (simp add: classify_def lower_model_free upper_model_free Let_def split: option.splits)

lemma execute_query_model_free:
  "execute_query (env\<lparr>send_message := g\<rparr>) query params = execute_query env query params"
  by (simp add: execute_query_def)

lemma search_body_model_free:
  "search_body (env\<lparr>send_message := g\<rparr>) s ix query k = search_body env s ix query k"
  by (simp add: search_body_def)

lemma search_model_free:
  "search_rag_index (env\<lparr>send_message := g\<rparr>) s query k = search_rag_index env s query k"
  by (simp add: search_rag_index_def search_body_model_free split: option.splits)

lemma build_context_model_free:
  "build_context (env\<lparr>send_message := g\<rparr>) s user_message = build_context env s user_message"
  by (simp add: build_context_def classify_model_free execute_query_model_free
      search_model_free found_context_def semantic_context_def
      split: intent.splits sum.splits list.splits prod.splits)

lemma build_body_model_free:
  "build_body (env\<lparr>send_message := g\<rparr>) s = build_body env s"
  by (simp add: build_body_def execute_query_model_free Let_def
      split: sum.splits prod.splits)

lemma ensure_built_model_free:
  "ensure_built (env\<lparr>send_message := g\<rparr>) s = ensure_built env s"
  by (simp add: ensure_built_def build_rag_index_def build_body_model_free)

text \<open>
  Claim C9. The response and the state after it are the same for any two conversation
  identifiers, absent or not. The state after a call is the state after the lazy build,
  whatever the message was: nothing of the conversation is kept. The chat is started
  with an empty history: what the generative model would answer to any other history
  does not change the response.
\<close>

theorem conversation_id_unused:
  "generate_response env s user_message c1 = generate_response env s user_message c2
   \<and> stream_response env s user_message c1 = stream_response env s user_message c2
   \<and> snd (generate_response env s user_message c1) = snd (generate_response env s other_message c2)
   \<and> ensure_built env s = Inr (snd (generate_response env s user_message c1))
   \<and> generate_response
        (env\<lparr>send_message := (\<lambda>history. if history = [] then send_message env [] else g history)\<rparr>)
        s user_message c1
       = generate_response env s user_message c1"
proof -
  have a: "stream_response env s user_message c1 = stream_response env s user_message c2"
    by (simp add: stream_response_def stream_body_def)
  then have b: "generate_response env s user_message c1 = generate_response env s user_message c2"
    by (simp add: generate_response_def)
  obtain s1 where s1: "ensure_built env s = Inr s1" using ensure_built_total by blast
  have st: "\<And>m c. snd (generate_response env s m c) = s1"
    using s1
    by (simp add: generate_response_def stream_response_def stream_body_def
        split: sum.splits prod.splits option.splits)
  let ?env = "env\<lparr>send_message := (\<lambda>history. if history = [] then send_message env [] else g history)\<rparr>"
  have "stream_body ?env s user_message c1 = stream_body env s user_message c1"
    by (simp add: stream_body_def build_context_model_free ensure_built_model_free
        split: sum.splits)
  then have d: "generate_response ?env s user_message c1 = generate_response env s user_message c1"
    by (simp add: generate_response_def stream_response_def)
  from a b st s1 d show ?thesis by simp
qed

end
